theory Spec2Isabelle
  imports Main
begin

section \<open>Data model of bbcore.py\<close>

text \<open>
  A tweepy status object, reduced to the four attributes the code reads:
  \<open>.id\<close> (here \<open>tweet_id\<close>, an unbounded Python int), \<open>.id_str\<close>, \<open>.created_at\<close> (kept as
  the string the csv writer produces for it) and \<open>.text\<close> (here \<open>tweet_text\<close>).
\<close>

record tweet =
  tweet_id :: int
  id_str :: string
  created_at :: string
  tweet_text :: string

text \<open>
  Exceptions are values. \<open>TypeError\<close> carries the exception that was being handled when it
  was raised (Python's \<open>__context__\<close>): it is what the statement \<open>raise()\<close> produces.
\<close>

datatype exn = TweepError string | IndexError | OSError nat | TypeError exn

text \<open>What travels to the observer: formatted text, or an exception object (\<open>conn.send(e)\<close>).\<close>

datatype msg = Str string | Exc exn

text \<open>
  The calls that leave \<open>TwitterCorpus\<close>, in the order they happen: one \<open>Request\<close> per
  \<open>api.user_timeline\<close> call (screen name, count, max_id, and what came back) and one
  \<open>Export\<close> per entry into \<open>user_tweets_to_csv\<close>.
\<close>

datatype event =
    Request string nat "int option" "exn + tweet list"
  | Export string "tweet list"

text \<open>
  The world the code acts on: the state of the remote platform behind the client library,
  the trace of calls, the pipe to the interface (\<open>sent\<close>), standard output (\<open>printed\<close>),
  and the file system (existing directories; csv files as the rows written to them).
\<close>

record 'p world =
  platform :: 'p
  trace :: "event list"
  sent :: "msg list"
  printed :: "msg list"
  dirs :: "string set"
  files :: "string \<rightharpoonup> string list list"

text \<open>
  \<open>api.user_timeline(screen_name, count, max_id)\<close> belongs to the client library: it is a
  parameter, a function of the platform state that answers with a page or raises.
\<close>

type_synonym 'p user_timeline =
  "'p \<Rightarrow> string \<Rightarrow> nat \<Rightarrow> int option \<Rightarrow> (exn + tweet list) \<times> 'p"

text \<open>
  The operating system as \<open>os.path.join\<close>, \<open>os.makedirs\<close> and \<open>open\<close> see it:
  \<open>makedirs_errno\<close> and \<open>open_errno\<close> give the errno with which the call on that path is
  refused (permissions, invalid path, ...), \<open>None\<close> when it is allowed.
\<close>

record os_env =
  path_join :: "string \<Rightarrow> string \<Rightarrow> string"
  makedirs_errno :: "string \<Rightarrow> nat option"
  open_errno :: "string \<Rightarrow> nat option"

section \<open>Helpers of the Python runtime\<close>

text \<open>\<open>xs[-1]\<close>: the last element, \<open>IndexError\<close> on the empty list.\<close>

definition py_last :: "'a list \<Rightarrow> exn + 'a" where
  "py_last xs = (if xs = [] then Inl IndexError else Inr (last xs))"

text \<open>\<open>str(n)\<close> for a length: decimal digits.\<close>

fun str_nat :: "nat \<Rightarrow> string" where
  "str_nat n =
     (if n < 10 then [char_of (48 + n)]
      else str_nat (n div 10) @ [char_of (48 + n mod 10)])"

declare str_nat.simps [simp del]

text \<open>\<open>if conn: conn.send(m) else: print(m)\<close>\<close>

definition notify :: "bool \<Rightarrow> msg \<Rightarrow> 'p world \<Rightarrow> 'p world" where
  "notify conn m w =
     (if conn then w\<lparr>sent := sent w @ [m]\<rparr> else w\<lparr>printed := printed w @ [m]\<rparr>)"

text \<open>One call of \<open>self.api.user_timeline\<close>, recorded in the trace.\<close>

definition call_user_timeline ::
  "'p user_timeline \<Rightarrow> string \<Rightarrow> nat \<Rightarrow> int option \<Rightarrow> 'p world
     \<Rightarrow> (exn + tweet list) \<times> 'p world" where
  "call_user_timeline api screen_name cnt max_id w =
     (case api (platform w) screen_name cnt max_id of
        (r, p') \<Rightarrow>
          (r, w\<lparr>platform := p', trace := trace w @ [Request screen_name cnt max_id r]\<rparr>))"

section \<open>TwitterCorpus.get_user_tweets\<close>

text \<open>
  The \<open>while len(new_tweets) > 0\<close> loop of lines 62-74. It ends only on an empty page, so
  it need not end: the first argument bounds the number of iterations, and \<open>None\<close> with the
  world reached so far is the answer when the bound is used up.
\<close>

fun fetch_loop ::
  "nat \<Rightarrow> 'p user_timeline \<Rightarrow> bool \<Rightarrow> string \<Rightarrow> tweet list \<Rightarrow> tweet list \<Rightarrow> int
     \<Rightarrow> 'p world \<Rightarrow> (exn + tweet list) option \<times> 'p world" where
  "fetch_loop 0 api conn screen_name new_tweets user_tweets oldest w =
     (if length new_tweets > 0 then (None, w) else (Some (Inr user_tweets), w))"
| "fetch_loop (Suc fuel) api conn screen_name new_tweets user_tweets oldest w =
     (if length new_tweets > 0 then
        (case call_user_timeline api screen_name 200 (Some oldest) w of
           (Inl e, w1) \<Rightarrow> (Some (Inl e), w1)
         | (Inr new_tweets', w1) \<Rightarrow>
             (let user_tweets' = user_tweets @ new_tweets' in
              case py_last user_tweets' of
                Inl e \<Rightarrow> (Some (Inl e), w1)
              | Inr t \<Rightarrow>
                  (let oldest' = tweet_id t - 1;
                       m = str_nat (length user_tweets') @ '' tweets downloaded for ''
                             @ screen_name @ '' so far.''
                   in fetch_loop fuel api conn screen_name new_tweets' user_tweets' oldest'
                        (notify conn (Str m) w1))))
      else (Some (Inr user_tweets), w))"

text \<open>
  Lines 44-75. The \<open>except\<close> clause catches \<open>TweepError\<close> only, and only around the initial
  request; everything under \<open>else:\<close> runs outside the \<open>try\<close>.
\<close>

definition get_user_tweets ::
  "nat \<Rightarrow> 'p user_timeline \<Rightarrow> bool \<Rightarrow> string \<Rightarrow> 'p world
     \<Rightarrow> (exn + tweet list) option \<times> 'p world" where
  "get_user_tweets fuel api conn screen_name w =
     (let user_tweets = [] in
      case call_user_timeline api screen_name 200 None w of
        (Inl (TweepError s), w1) \<Rightarrow>
          (Some (Inr user_tweets), notify conn (Exc (TweepError s)) w1)
      | (Inl e, w1) \<Rightarrow> (Some (Inl e), w1)
      | (Inr new_tweets, w1) \<Rightarrow>
          (let user_tweets = user_tweets @ new_tweets in
           case py_last user_tweets of
             Inl e \<Rightarrow> (Some (Inl e), w1)
           | Inr t \<Rightarrow>
               fetch_loop fuel api conn screen_name new_tweets user_tweets (tweet_id t - 1) w1))"

section \<open>TwitterCorpus.user_tweets_to_csv\<close>

text \<open>
  \<open>os.makedirs(dn)\<close>: \<open>OSError\<close> with errno 17 (EEXIST) when the path is there already,
  with the errno of the operating system when it refuses, and the directory created
  otherwise.
\<close>

definition makedirs :: "os_env \<Rightarrow> string \<Rightarrow> 'p world \<Rightarrow> (exn + unit) \<times> 'p world" where
  "makedirs os dn w =
     (if dn \<in> dirs w then (Inl (OSError 17), w)
      else case makedirs_errno os dn of
             Some errno \<Rightarrow> (Inl (OSError errno), w)
           | None \<Rightarrow> (Inr (), w\<lparr>dirs := insert dn (dirs w)\<rparr>))"

text \<open>\<open>open(fp, 'w')\<close>: the file is created or truncated, unless the system refuses.\<close>

definition open_w :: "os_env \<Rightarrow> string \<Rightarrow> 'p world \<Rightarrow> (exn + unit) \<times> 'p world" where
  "open_w os fp w =
     (case open_errno os fp of
        Some errno \<Rightarrow> (Inl (OSError errno), w)
      | None \<Rightarrow> (Inr (), w\<lparr>files := (files w)(fp \<mapsto> [])\<rparr>))"

text \<open>\<open>writer.writerow(row)\<close> and \<open>writer.writerows(rows)\<close> on the file opened at \<open>fp\<close>.\<close>

definition writerows :: "string \<Rightarrow> string list list \<Rightarrow> 'p world \<Rightarrow> 'p world" where
  "writerows fp rows w =
     w\<lparr>files := (files w)(fp \<mapsto> (case files w fp of None \<Rightarrow> [] | Some old \<Rightarrow> old) @ rows)\<rparr>"

definition writerow :: "string \<Rightarrow> string list \<Rightarrow> 'p world \<Rightarrow> 'p world" where
  "writerow fp row w = writerows fp [row] w"

definition header :: "string list" where
  "header = [''TWEET_ID'', ''CREATED_AT'', ''TEXT'']"

text \<open>
  Lines 77-96. The handler lets errno 17 pass; for any other errno it executes \<open>raise()\<close>,
  which raises a \<open>TypeError\<close> (the empty tuple is not an exception) while the \<open>OSError\<close> is
  being handled.
\<close>

definition user_tweets_to_csv ::
  "os_env \<Rightarrow> string \<Rightarrow> bool \<Rightarrow> tweet list \<Rightarrow> string \<Rightarrow> 'p world \<Rightarrow> (exn + unit) \<times> 'p world" where
  "user_tweets_to_csv os data_path conn user_tweets screen_name w0 =
     (let w = w0\<lparr>trace := trace w0 @ [Export screen_name user_tweets]\<rparr>;
          outtweets = map (\<lambda>tweet. [id_str tweet, created_at tweet, tweet_text tweet]) user_tweets;
          dn = path_join os data_path ''tweets''
      in case (case makedirs os dn w of
                 (Inl (OSError errno), w1) \<Rightarrow>
                   (if errno \<noteq> 17 then (Inl (TypeError (OSError errno)), w1) else (Inr (), w1))
               | r \<Rightarrow> r) of
           (Inl e, w1) \<Rightarrow> (Inl e, w1)
         | (Inr _, w1) \<Rightarrow>
             (let fp = path_join os dn (screen_name @ ''_tweets.csv'') in
              case open_w os fp w1 of
                (Inl e, w2) \<Rightarrow> (Inl e, w2)
              | (Inr _, w2) \<Rightarrow>
                  (let w3 = writerow fp header w2;
                       w4 = writerows fp outtweets w3;
                       m = ''Saved tweets to '' @ fp @ ''.''
                   in (Inr (), notify conn (Str m) w4))))"

section \<open>TwitterCorpus.get_multi_user_tweets\<close>

text \<open>
  Lines 30-42: the \<open>for\<close> loop over the screen names. An exception of either call leaves
  the loop; the starting message goes to the pipe only (there is no \<open>print\<close> branch).
\<close>

definition starting :: "bool \<Rightarrow> string \<Rightarrow> 'p world \<Rightarrow> 'p world" where
  "starting conn sn w =
     (if conn then w\<lparr>sent := sent w @ [Str (''Getting tweets for '' @ sn @ '' ...'')]\<rparr>
      else w)"

fun get_multi_user_tweets ::
  "nat \<Rightarrow> 'p user_timeline \<Rightarrow> os_env \<Rightarrow> string \<Rightarrow> bool \<Rightarrow> string list \<Rightarrow> 'p world
     \<Rightarrow> (exn + unit) option \<times> 'p world" where
  "get_multi_user_tweets fuel api os data_path conn [] w = (Some (Inr ()), w)"
| "get_multi_user_tweets fuel api os data_path conn (sn # screen_names) w =
     (let w0 = starting conn sn w
      in case get_user_tweets fuel api conn sn w0 of
           (None, w1) \<Rightarrow> (None, w1)
         | (Some (Inl e), w1) \<Rightarrow> (Some (Inl e), w1)
         | (Some (Inr user_tweets), w1) \<Rightarrow>
             (case user_tweets_to_csv os data_path conn user_tweets sn w1 of
                (Inl e, w2) \<Rightarrow> (Some (Inl e), w2)
              | (Inr _, w2) \<Rightarrow>
                  get_multi_user_tweets fuel api os data_path conn screen_names
                    (notify conn (Str (''Done with '' @ sn @ ''!'')) w2)))"

section \<open>BirdbodyGUI.download_tweets\<close>

text \<open>
  \<open>str.isspace\<close> on the code points below 256, \<open>str.strip()\<close> and \<open>str.split("\n")\<close>.
\<close>

definition isspace :: "char \<Rightarrow> bool" where
  "isspace c = (of_char c \<in> {9, 10, 11, 12, 13, 28, 29, 30, 31, 32, 133, 160 :: nat})"

definition strip :: "string \<Rightarrow> string" where
  "strip s = rev (dropWhile isspace (rev (dropWhile isspace s)))"

fun split_nl :: "string \<Rightarrow> string list" where
  "split_nl [] = [[]]"
| "split_nl (c # cs) =
     (if c = CHR 0x0A then [] # split_nl cs
      else (case split_nl cs of l # ls \<Rightarrow> (c # l) # ls | [] \<Rightarrow> [[c]]))"

text \<open>
  The fields of the interface that \<open>download_tweets\<close> reads and writes. The worker process
  is kept as the job it was started with, the corpus settings and the screen names; its
  pipe and the polling timer go with it.
\<close>

record job =
  job_data_path :: string
  job_credentials :: "string \<times> string \<times> string \<times> string"
  job_screen_names :: "string list"

record gui =
  screen_names_text :: string
  data_path_var :: string
  consumer_key_var :: string
  consumer_secret_var :: string
  access_key_var :: string
  access_secret_var :: string
  download_button_state :: string
  download_worker_proc :: "job option"

text \<open>Lines 221-228: the screen names are the stripped lines that are not empty.\<close>

definition read_screen_names :: "string \<Rightarrow> string list" where
  "read_screen_names sn_text =
     (if sn_text \<noteq> [] then filter (\<lambda>l. l \<noteq> []) (map strip (split_nl sn_text)) else [])"

text \<open>Lines 220-243.\<close>

definition download_tweets :: "gui \<Rightarrow> gui" where
  "download_tweets g =
     (let screen_names = read_screen_names (screen_names_text g) in
      if screen_names \<noteq> [] then
        (let udp = strip (data_path_var g);
             ck = strip (consumer_key_var g);
             cs = strip (consumer_secret_var g);
             ak = strip (access_key_var g);
             acs = strip (access_secret_var g)
         in g\<lparr>download_button_state := ''disabled'',
              download_worker_proc :=
                Some \<lparr>job_data_path = udp, job_credentials = (ck, cs, ak, acs),
                      job_screen_names = screen_names\<rparr>\<rparr>)
      else g)"

section \<open>Reading a run: trace projections, platforms, initial worlds\<close>

fun is_request :: "event \<Rightarrow> bool" where
  "is_request (Request sn cnt max_id r) = True"
| "is_request (Export sn tweets) = False"

text \<open>The cursor (\<open>max_id\<close>) a request was made with, and the page it was answered with.\<close>

fun cursor_of :: "event \<Rightarrow> int option" where
  "cursor_of (Request sn cnt max_id r) = max_id"
| "cursor_of (Export sn tweets) = None"

fun page_of :: "event \<Rightarrow> tweet list" where
  "page_of (Request sn cnt max_id (Inr page)) = page"
| "page_of (Request sn cnt max_id (Inl e)) = []"
| "page_of (Export sn tweets) = []"

definition requests_of :: "event list \<Rightarrow> event list" where
  "requests_of evs = filter is_request evs"

text \<open>
  A platform that keeps, for every account, its items newest first and serves the first
  items whose id is at most \<open>max_id\<close>: as many as \<open>count\<close> asks for, and no more than its
  own ceiling. It never fails.
\<close>

definition timeline_api :: "nat \<Rightarrow> (string \<Rightarrow> tweet list) user_timeline" where
  "timeline_api ceiling p screen_name cnt max_id =
     (Inr (take (min cnt ceiling)
             (filter (\<lambda>t. case max_id of None \<Rightarrow> True | Some m \<Rightarrow> tweet_id t \<le> m)
                (p screen_name))), p)"

text \<open>
  A platform that answers the requests it gets with a prepared list of answers, one after
  the other whatever is asked, and with the empty page once the list is used up.
\<close>

definition scripted_api :: "(exn + tweet list) list user_timeline" where
  "scripted_api p screen_name cnt max_id =
     (case p of [] \<Rightarrow> (Inr [], []) | r # rs \<Rightarrow> (r, rs))"

definition world0 :: "'p \<Rightarrow> 'p world" where
  "world0 p = \<lparr>platform = p, trace = [], sent = [], printed = [], dirs = {},
               files = Map.empty\<rparr>"

definition tw :: "int \<Rightarrow> tweet" where
  "tw i = \<lparr>tweet_id = i, id_str = ''id'', created_at = ''2020-01-01 00:00:00'',
           tweet_text = ''hello''\<rparr>"

text \<open>An operating system that refuses nothing and joins paths with a slash.\<close>

definition posix :: os_env where
  "posix = \<lparr>path_join = (\<lambda>a b. a @ ''/'' @ b), makedirs_errno = (\<lambda>_. None),
            open_errno = (\<lambda>_. None)\<rparr>"

text \<open>The platform honours \<open>max_id\<close>: no item of a page is newer than the cursor asked for.\<close>

definition honours_max_id :: "'p user_timeline \<Rightarrow> bool" where
  "honours_max_id api =
     (\<forall>p sn cnt m page p'. api p sn cnt (Some m) = (Inr page, p')
        \<longrightarrow> (\<forall>t \<in> set page. tweet_id t \<le> m))"

text \<open>Ids decrease with recency within a page: every item is older than the ones before it.\<close>

definition ids_decrease :: "tweet list \<Rightarrow> bool" where
  "ids_decrease page = sorted_wrt (\<lambda>a b. tweet_id a > tweet_id b) page"

text \<open>
  Cursors compared as bounds, the missing cursor of the initial request being no bound at
  all: \<open>cursor_le a b\<close> says that \<open>a\<close> is at most \<open>b\<close>.
\<close>

definition cursor_le :: "int option \<Rightarrow> int option \<Rightarrow> bool" where
  "cursor_le a b =
     (case b of None \<Rightarrow> True | Some y \<Rightarrow> (case a of None \<Rightarrow> False | Some x \<Rightarrow> x \<le> y))"

definition cursors_non_increasing :: "event list \<Rightarrow> bool" where
  "cursors_non_increasing reqs = sorted_wrt (\<lambda>a b. cursor_le b a) (map cursor_of reqs)"

text \<open>
  The cursor rule along a list of requests: each request but the last was answered with a
  page that is not empty, and the next one asks with the id of that page's last item, less
  one.
\<close>

fun cursor_chain :: "event list \<Rightarrow> bool" where
  "cursor_chain (r1 # r2 # rs) =
     (page_of r1 \<noteq> [] \<and> cursor_of r2 = Some (tweet_id (last (page_of r1)) - 1)
      \<and> cursor_chain (r2 # rs))"
| "cursor_chain rs = True"

text \<open>A request whose page holds no item newer than the cursor it was made with.\<close>

fun honoured :: "event \<Rightarrow> bool" where
  "honoured (Request sn cnt (Some m) (Inr page)) = (\<forall>t \<in> set page. tweet_id t \<le> m)"
| "honoured ev = True"

text \<open>
  The directory \<open>dn\<close> of line 81, the file \<open>fp\<close> of line 87, and the rows that lines 90-91
  hand to the csv writer.
\<close>

definition csv_dir :: "os_env \<Rightarrow> string \<Rightarrow> string" where
  "csv_dir os data_path = path_join os data_path ''tweets''"

definition csv_path :: "os_env \<Rightarrow> string \<Rightarrow> string \<Rightarrow> string" where
  "csv_path os data_path screen_name =
     path_join os (csv_dir os data_path) (screen_name @ ''_tweets.csv'')"

definition csv_rows :: "tweet list \<Rightarrow> string list list" where
  "csv_rows tweets = header # map (\<lambda>t. [id_str t, created_at t, tweet_text t]) tweets"

text \<open>An interface with the given text in the screen-name box and no worker.\<close>

definition gui0 :: "string \<Rightarrow> gui" where
  "gui0 sn_text = \<lparr>screen_names_text = sn_text, data_path_var = ''/data'',
     consumer_key_var = ''ck'', consumer_secret_var = ''cs'', access_key_var = ''ak'',
     access_secret_var = ''as'', download_button_state = ''normal'',
     download_worker_proc = None\<rparr>"

section \<open>Basic facts\<close>

lemma platform_starting [simp]: "platform (starting conn sn w) = platform w"
  and trace_starting [simp]: "trace (starting conn sn w) = trace w"
  and dirs_starting [simp]: "dirs (starting conn sn w) = dirs w"
  and files_starting [simp]: "files (starting conn sn w) = files w"
  by (simp_all add: starting_def)

lemma platform_notify [simp]: "platform (notify conn m w) = platform w"
  and trace_notify [simp]: "trace (notify conn m w) = trace w"
  and dirs_notify [simp]: "dirs (notify conn m w) = dirs w"
  and files_notify [simp]: "files (notify conn m w) = files w"
  by (simp_all add: notify_def)

lemma fetch_initial_TweepError:
  assumes "api (platform w) sn 200 None = (Inl (TweepError s), p')"
  shows "get_user_tweets fuel api conn sn w =
    (Some (Inr []), notify conn (Exc (TweepError s))
       (w\<lparr>platform := p', trace := trace w @ [Request sn 200 None (Inl (TweepError s))]\<rparr>))"
  using assms by (simp add: get_user_tweets_def call_user_timeline_def)

lemma fetch_initial_empty_page:
  assumes "api (platform w) sn 200 None = (Inr [], p')"
  shows "get_user_tweets fuel api conn sn w =
    (Some (Inl IndexError),
     w\<lparr>platform := p', trace := trace w @ [Request sn 200 None (Inr [])]\<rparr>)"
  using assms by (simp add: get_user_tweets_def call_user_timeline_def py_last_def)

text \<open>
  The iteration bound plays no part in a result: once the loop has ended within the bound,
  a larger bound gives the same answer and the same world.
\<close>

lemma fetch_loop_done:
  "fetch_loop fuel api conn sn [] user oldest w = (Some (Inr user), w)"
  by (cases fuel) simp_all

lemma fetch_loop_more_fuel:
  "fst (fetch_loop n api conn sn new user oldest w) = Some r \<Longrightarrow>
     fetch_loop (n + m) api conn sn new user oldest w = fetch_loop n api conn sn new user oldest w"
proof (induction n arbitrary: new user oldest w)
  case 0
  then show ?case by (cases "new = []") (simp_all add: fetch_loop_done)
next
  case (Suc n)
  show ?case
  proof (cases "new = []")
    case True
    then show ?thesis by (simp add: fetch_loop_done)
  next
    case False
    obtain a w1 where c: "call_user_timeline api sn 200 (Some oldest) w = (a, w1)"
      by (cases "call_user_timeline api sn 200 (Some oldest) w")
    show ?thesis
    proof (cases a)
      case (Inl e)
      then show ?thesis using False c by simp
    next
      case (Inr new')
      show ?thesis
      proof (cases "py_last (user @ new')")
        case (Inl e)
        then show ?thesis using False c Inr by simp
      next
        case ok: (Inr t)
        then show ?thesis using False c Inr Suc.prems Suc.IH by (simp add: Let_def)
      qed
    qed
  qed
qed

lemma get_user_tweets_more_fuel:
  "fst (get_user_tweets n api conn sn w) = Some r \<Longrightarrow>
     get_user_tweets (n + m) api conn sn w = get_user_tweets n api conn sn w"
  by (auto simp: get_user_tweets_def fetch_loop_more_fuel
      split: prod.splits sum.splits exn.splits)

section \<open>The initial request\<close>

text \<open>
  C8. When the initial page request of an account fails with a \<open>TweepError\<close>, whatever the
  iteration bound, \<open>get_user_tweets\<close> returns the empty list, the world differs from the
  one before by that single request in the trace (no second attempt) and by the exception
  handed to the observer, and \<open>get_multi_user_tweets\<close> goes on: it exports the empty list
  for this account and, unless the export itself raises, continues with the remaining
  screen names.
\<close>

theorem initial_failure_reported_and_batch_goes_on:
  assumes "api (platform w) sn 200 None = (Inl (TweepError s), p')"
  shows "get_user_tweets fuel api conn sn w =
           (Some (Inr []),
            notify conn (Exc (TweepError s))
              (w\<lparr>platform := p',
                 trace := trace w @ [Request sn 200 None (Inl (TweepError s))]\<rparr>))
         \<and> get_multi_user_tweets fuel api os dp conn (sn # rest) w =
             (case user_tweets_to_csv os dp conn [] sn
                     (notify conn (Exc (TweepError s))
                        ((starting conn sn w)\<lparr>platform := p',
                           trace := trace w @ [Request sn 200 None (Inl (TweepError s))]\<rparr>)) of
                (Inl e, w2) \<Rightarrow> (Some (Inl e), w2)
              | (Inr u, w2) \<Rightarrow>
                  get_multi_user_tweets fuel api os dp conn rest
                    (notify conn (Str (''Done with '' @ sn @ ''!'')) w2))"
proof -
  have p: "api (platform (starting conn sn w)) sn 200 None = (Inl (TweepError s), p')"
    using assms by simp
  show ?thesis
    using fetch_initial_TweepError [where api = api and w = w, OF assms]
      fetch_initial_TweepError [where api = api and w = "starting conn sn w", OF p]
    by simp
qed

theorem initial_failure_witness:
  "scripted_api (platform (world0 [Inl (TweepError ''Not authorized.''), Inr [tw 5]]))
       ''alice'' 200 None = (Inl (TweepError ''Not authorized.''), [Inr [tw 5]])
   \<and> get_user_tweets 0 scripted_api True ''alice''
        (world0 [Inl (TweepError ''Not authorized.''), Inr [tw 5]]) =
       (Some (Inr []),
        \<lparr>platform = [Inr [tw 5]],
         trace = [Request ''alice'' 200 None (Inl (TweepError ''Not authorized.''))],
         sent = [Exc (TweepError ''Not authorized.'')], printed = [], dirs = {},
         files = Map.empty\<rparr>)"
  using initial_failure_reported_and_batch_goes_on
    [where api = scripted_api and w = "world0 [Inl (TweepError ''Not authorized.''), Inr [tw 5]]"
       and sn = "''alice''" and s = "''Not authorized.''" and p' = "[Inr [tw 5]]"
       and fuel = 0 and conn = True]
  by (simp add: scripted_api_def world0_def notify_def)

text \<open>
  C1. An account without items: the platform answers the initial request with the empty
  page. Line 60 then reads \<open>user_tweets[-1]\<close> on the empty list, before the loop guard of
  line 62 is reached: after exactly one request \<open>get_user_tweets\<close> raises \<open>IndexError\<close>
  instead of returning the empty list.
\<close>

theorem empty_first_page_raises_IndexError:
  "get_user_tweets fuel (timeline_api 200) conn ''newcomer'' (world0 (\<lambda>sn. [])) =
     (Some (Inl IndexError),
      \<lparr>platform = (\<lambda>sn. []), trace = [Request ''newcomer'' 200 None (Inr [])],
       sent = [], printed = [], dirs = {}, files = Map.empty\<rparr>)"
  by (simp add: get_user_tweets_def call_user_timeline_def timeline_api_def world0_def
      py_last_def)

section \<open>The loop over the accounts when a fetch raises\<close>

text \<open>
  C2. A \<open>TweepError\<close> of a request inside the loop. The request of lines 64-65 is not
  inside a \<open>try\<close>: with the accounts \<open>alice\<close> and \<open>bob\<close>, a first page of one item and a
  second request that the platform refuses, the exception leaves \<open>get_user_tweets\<close> and
  \<open>get_multi_user_tweets\<close>. Nothing about the error reaches the observer, the item already
  fetched is not exported, and \<open>bob\<close> is never requested.
\<close>

theorem error_inside_loop_aborts_batch:
  "get_multi_user_tweets (Suc fuel) scripted_api posix ''/data'' True [''alice'', ''bob'']
     (world0 [Inr [tw 10], Inl (TweepError ''Rate limit exceeded'')]) =
   (Some (Inl (TweepError ''Rate limit exceeded'')),
    \<lparr>platform = [],
     trace = [Request ''alice'' 200 None (Inr [tw 10]),
              Request ''alice'' 200 (Some 9) (Inl (TweepError ''Rate limit exceeded''))],
     sent = [Str ''Getting tweets for alice ...''], printed = [], dirs = {},
     files = Map.empty\<rparr>)"
  by (simp add: get_user_tweets_def call_user_timeline_def scripted_api_def world0_def
      py_last_def starting_def tw_def)

text \<open>
  C5. The accounts \<open>alice\<close>, who has no items, and \<open>bob\<close>, who has one. The \<open>IndexError\<close>
  of line 60 for \<open>alice\<close> ends the \<open>for\<close> loop: the trace holds the one request and no
  export at all, neither for \<open>alice\<close> nor for \<open>bob\<close>.
\<close>

theorem empty_account_aborts_batch:
  "get_multi_user_tweets fuel (timeline_api 200) posix ''/data'' conn [''alice'', ''bob'']
     (world0 (\<lambda>sn. if sn = ''bob'' then [tw 3] else [])) =
   (Some (Inl IndexError),
    \<lparr>platform = (\<lambda>sn. if sn = ''bob'' then [tw 3] else []),
     trace = [Request ''alice'' 200 None (Inr [])],
     sent = (if conn then [Str ''Getting tweets for alice ...''] else []), printed = [],
     dirs = {}, files = Map.empty\<rparr>)"
  by (simp add: get_user_tweets_def call_user_timeline_def timeline_api_def world0_def
      py_last_def starting_def)

section \<open>The export\<close>

lemma export_succeeds:
  assumes "csv_dir os dp \<in> dirs w \<or> makedirs_errno os (csv_dir os dp) = None
             \<or> makedirs_errno os (csv_dir os dp) = Some 17"
    and "open_errno os (csv_path os dp sn) = None"
  shows "user_tweets_to_csv os dp conn tweets sn w =
    (Inr (),
     notify conn (Str (''Saved tweets to '' @ csv_path os dp sn @ ''.''))
       (w\<lparr>trace := trace w @ [Export sn tweets],
          dirs := (if makedirs_errno os (csv_dir os dp) = None
                   then insert (csv_dir os dp) (dirs w) else dirs w),
          files := (files w)(csv_path os dp sn \<mapsto> csv_rows tweets)\<rparr>))"
  using assms
  by (auto simp: user_tweets_to_csv_def makedirs_def open_w_def writerow_def writerows_def
      csv_dir_def csv_path_def csv_rows_def Let_def insert_absorb split: option.splits)

lemma export_open_refused:
  assumes "csv_dir os dp \<in> dirs w \<or> makedirs_errno os (csv_dir os dp) = None
             \<or> makedirs_errno os (csv_dir os dp) = Some 17"
    and "open_errno os (csv_path os dp sn) = Some errno"
  shows "fst (user_tweets_to_csv os dp conn tweets sn w) = Inl (OSError errno)"
  using assms
  by (auto simp: user_tweets_to_csv_def makedirs_def open_w_def 
      csv_dir_def csv_path_def Let_def split: option.splits)

lemma export_makedirs_refused:
  assumes "csv_dir os dp \<notin> dirs w" and "makedirs_errno os (csv_dir os dp) = Some errno"
    and "errno \<noteq> 17"
  shows "user_tweets_to_csv os dp conn tweets sn w =
    (Inl (TypeError (OSError errno)), w\<lparr>trace := trace w @ [Export sn tweets]\<rparr>)"
  using assms
  by (auto simp: user_tweets_to_csv_def makedirs_def csv_dir_def Let_def)

lemma export_ok_dir:
  assumes "user_tweets_to_csv os dp conn tweets sn w = (Inr (), w1)"
  shows "csv_dir os dp \<in> dirs w1 \<or> makedirs_errno os (csv_dir os dp) = Some 17"
  using assms
  by (auto simp: user_tweets_to_csv_def makedirs_def open_w_def writerow_def writerows_def
      csv_dir_def csv_path_def csv_rows_def Let_def split: option.splits if_splits)

text \<open>
  C6. The directory step of \<open>user_tweets_to_csv\<close>. (1) When the directory is there already,
  the export fails only if opening the file fails. (2) After an export that succeeded, a
  second export under the same data path, of any items for any screen name, again fails
  only if opening its file fails. (3) When the directory is not there and the system
  refuses to create it with an errno other than 17, the export raises to its caller, having
  written nothing: the exception is the \<open>TypeError\<close> of \<open>raise()\<close>, raised while the
  \<open>OSError\<close> is being handled.
\<close>

theorem export_directory_step:
  "(csv_dir os dp \<in> dirs w \<longrightarrow>
      fst (user_tweets_to_csv os dp conn tweets sn w) =
        (case open_errno os (csv_path os dp sn) of
           None \<Rightarrow> Inr () | Some errno \<Rightarrow> Inl (OSError errno)))
   \<and> (\<forall>w1. user_tweets_to_csv os dp conn tweets sn w = (Inr (), w1) \<longrightarrow>
         fst (user_tweets_to_csv os dp conn tweets' sn' w1) =
           (case open_errno os (csv_path os dp sn') of
              None \<Rightarrow> Inr () | Some errno \<Rightarrow> Inl (OSError errno)))
   \<and> (csv_dir os dp \<notin> dirs w \<and> makedirs_errno os (csv_dir os dp) = Some errno \<and> errno \<noteq> 17 \<longrightarrow>
         user_tweets_to_csv os dp conn tweets sn w =
           (Inl (TypeError (OSError errno)), w\<lparr>trace := trace w @ [Export sn tweets]\<rparr>))"
proof (intro conjI impI allI)
  assume "csv_dir os dp \<in> dirs w"
  then show "fst (user_tweets_to_csv os dp conn tweets sn w) =
        (case open_errno os (csv_path os dp sn) of
           None \<Rightarrow> Inr () | Some errno \<Rightarrow> Inl (OSError errno))"
    by (cases "open_errno os (csv_path os dp sn)")
      (simp_all add: export_succeeds export_open_refused)
next
  fix w1
  assume "user_tweets_to_csv os dp conn tweets sn w = (Inr (), w1)"
  then have "csv_dir os dp \<in> dirs w1 \<or> makedirs_errno os (csv_dir os dp) = Some 17"
    by (rule export_ok_dir)
  then show "fst (user_tweets_to_csv os dp conn tweets' sn' w1) =
           (case open_errno os (csv_path os dp sn') of
              None \<Rightarrow> Inr () | Some errno \<Rightarrow> Inl (OSError errno))"
    by (cases "open_errno os (csv_path os dp sn')")
      (auto simp: export_succeeds export_open_refused)
next
  assume "csv_dir os dp \<notin> dirs w \<and> makedirs_errno os (csv_dir os dp) = Some errno \<and> errno \<noteq> 17"
  then show "user_tweets_to_csv os dp conn tweets sn w =
           (Inl (TypeError (OSError errno)), w\<lparr>trace := trace w @ [Export sn tweets]\<rparr>)"
    by (simp add: export_makedirs_refused)
qed

theorem export_directory_step_witness:
  "fst (user_tweets_to_csv posix ''/data'' True [tw 1] ''alice''
          ((world0 ())\<lparr>dirs := {''/data/tweets''}\<rparr>)) = Inr ()
   \<and> fst (user_tweets_to_csv posix ''/data'' True [] ''bob''
          (snd (user_tweets_to_csv posix ''/data'' True [tw 1] ''alice'' (world0 ())))) = Inr ()
   \<and> user_tweets_to_csv (posix\<lparr>makedirs_errno := (\<lambda>dn. Some 13)\<rparr>) ''/data'' True [tw 1] ''alice''
        (world0 ()) =
       (Inl (TypeError (OSError 13)), (world0 ())\<lparr>trace := [Export ''alice'' [tw 1]]\<rparr>)"
proof -
  have first: "user_tweets_to_csv posix ''/data'' True [tw 1] ''alice'' (world0 ()) =
      (Inr (), snd (user_tweets_to_csv posix ''/data'' True [tw 1] ''alice'' (world0 ())))"
    by (simp add: export_succeeds posix_def csv_dir_def csv_path_def)
  show ?thesis
    using export_directory_step [where os = posix and dp = "''/data''"
        and w = "(world0 ())\<lparr>dirs := {''/data/tweets''}\<rparr>" and conn = True
        and tweets = "[tw 1]" and sn = "''alice''"]
      export_directory_step [where os = posix and dp = "''/data''" and w = "world0 ()"
        and conn = True and tweets = "[tw 1]" and sn = "''alice''" and tweets' = "[]"
        and sn' = "''bob''"] first
      export_directory_step [where os = "posix\<lparr>makedirs_errno := (\<lambda>dn. Some 13)\<rparr>"
        and dp = "''/data''" and w = "world0 ()" and conn = True and tweets = "[tw 1]"
        and sn = "''alice''" and errno = 13]
    by (simp add: posix_def csv_dir_def csv_path_def world0_def)
qed

text \<open>
  C7. For every list of items and every screen name, when creating the directory and
  opening the file are not refused, \<open>user_tweets_to_csv\<close> returns normally and the file
  \<open>join(join(data_path, "tweets"), screen_name + "_tweets.csv")\<close> holds the header row
  followed by one row (id_str, created_at, text) per item, in the order of the list; what
  the file held before plays no part, and no other file changes.
\<close>

theorem export_writes_csv:
  assumes "path_join os dp ''tweets'' \<in> dirs w
           \<or> makedirs_errno os (path_join os dp ''tweets'') = None
           \<or> makedirs_errno os (path_join os dp ''tweets'') = Some 17"
    and "open_errno os (path_join os (path_join os dp ''tweets'') (sn @ ''_tweets.csv'')) = None"
  shows "\<exists>w'. user_tweets_to_csv os dp conn tweets sn w = (Inr (), w')
           \<and> files w' =
               (files w)(path_join os (path_join os dp ''tweets'') (sn @ ''_tweets.csv'') \<mapsto>
                  [''TWEET_ID'', ''CREATED_AT'', ''TEXT'']
                  # map (\<lambda>t. [id_str t, created_at t, tweet_text t]) tweets)"
  using export_succeeds [of os dp w sn conn tweets] assms
  by (simp add: csv_dir_def csv_path_def csv_rows_def header_def)

theorem export_writes_csv_witness:
  "\<exists>w'. user_tweets_to_csv posix ''/data'' False [tw 1, tw 2] ''alice''
           ((world0 ())\<lparr>files := [''/data/tweets/alice_tweets.csv'' \<mapsto> [[''stale'']]]\<rparr>) = (Inr (), w')
     \<and> files w' ''/data/tweets/alice_tweets.csv'' =
         Some [[''TWEET_ID'', ''CREATED_AT'', ''TEXT''],
               [''id'', ''2020-01-01 00:00:00'', ''hello''],
               [''id'', ''2020-01-01 00:00:00'', ''hello'']]"
  using export_writes_csv [where os = posix and dp = "''/data''" and sn = "''alice''"
      and conn = False and tweets = "[tw 1, tw 2]"
      and w = "(world0 ())\<lparr>files := [''/data/tweets/alice_tweets.csv'' \<mapsto> [[''stale'']]]\<rparr>"]
  by (auto simp: posix_def tw_def)

text \<open>
  The one path on which an empty list is exported: the initial request fails with a
  \<open>TweepError\<close>, the directory exists or can be created and the file can be opened. Then
  \<open>get_multi_user_tweets\<close> calls the export with the empty list (one request and one export
  in the trace), the directory exists afterwards, the file of the account holds the header
  row and nothing else, and the loop goes on with the remaining screen names.
\<close>

lemma export_after_initial_failure:
  assumes "api (platform w) sn 200 None = (Inl (TweepError s), p')"
    and "path_join os dp ''tweets'' \<in> dirs w
         \<or> makedirs_errno os (path_join os dp ''tweets'') = None"
    and "open_errno os (path_join os (path_join os dp ''tweets'') (sn @ ''_tweets.csv'')) = None"
  shows "\<exists>w'. get_multi_user_tweets fuel api os dp conn (sn # rest) w =
               get_multi_user_tweets fuel api os dp conn rest w'
           \<and> trace w' = trace w @ [Request sn 200 None (Inl (TweepError s)), Export sn []]
           \<and> files w' =
               (files w)(path_join os (path_join os dp ''tweets'') (sn @ ''_tweets.csv'') \<mapsto>
                  [[''TWEET_ID'', ''CREATED_AT'', ''TEXT'']])
           \<and> dirs w' = insert (path_join os dp ''tweets'') (dirs w)"
proof -
  define w0 where "w0 = starting conn sn w"
  define w1 where "w1 = notify conn (Exc (TweepError s))
       (w0\<lparr>platform := p', trace := trace w0 @ [Request sn 200 None (Inl (TweepError s))]\<rparr>)"
  define w2 where "w2 = snd (user_tweets_to_csv os dp conn [] sn w1)"
  define w3 where "w3 = notify conn (Str (''Done with '' @ sn @ ''!'')) w2"
  have p: "api (platform w0) sn 200 None = (Inl (TweepError s), p')"
    using assms(1) by (simp add: w0_def)
  have f: "get_user_tweets fuel api conn sn w0 = (Some (Inr []), w1)"
    unfolding w1_def using p by (rule fetch_initial_TweepError)
  have w1_facts: "trace w1 = trace w @ [Request sn 200 None (Inl (TweepError s))]"
    "dirs w1 = dirs w" "files w1 = files w"
    by (simp_all add: w1_def w0_def)
  have d: "csv_dir os dp \<in> dirs w1 \<or> makedirs_errno os (csv_dir os dp) = None
             \<or> makedirs_errno os (csv_dir os dp) = Some 17"
    using assms(2) by (auto simp: csv_dir_def w1_facts)
  have q: "open_errno os (csv_path os dp sn) = None"
    using assms(3) by (simp add: csv_dir_def csv_path_def)
  note e = export_succeeds [OF d q, of conn "[]"]
  have e': "user_tweets_to_csv os dp conn [] sn w1 = (Inr (), w2)"
    by (simp add: w2_def e)
  have g: "get_multi_user_tweets fuel api os dp conn (sn # rest) w =
           get_multi_user_tweets fuel api os dp conn rest w3"
    by (simp add: w0_def [symmetric] f e' w3_def)
  have t: "trace w3 = trace w @ [Request sn 200 None (Inl (TweepError s)), Export sn []]"
    by (simp add: w3_def w2_def e w1_facts)
  have fl: "files w3 =
        (files w)(path_join os (path_join os dp ''tweets'') (sn @ ''_tweets.csv'') \<mapsto>
           [[''TWEET_ID'', ''CREATED_AT'', ''TEXT'']])"
    by (simp add: w3_def w2_def e w1_facts csv_dir_def csv_path_def csv_rows_def header_def)
  have dr: "dirs w3 = insert (path_join os dp ''tweets'') (dirs w)"
    using assms(2) by (auto simp: w3_def w2_def e w1_facts csv_dir_def)
  from g t fl dr show ?thesis by blast
qed

lemma export_after_initial_failure_example:
  "\<exists>w'. get_multi_user_tweets 0 scripted_api posix ''/data'' True [''alice'']
           (world0 [Inl (TweepError ''Not authorized.'')]) = (Some (Inr ()), w')
     \<and> trace w' = [Request ''alice'' 200 None (Inl (TweepError ''Not authorized.'')),
                    Export ''alice'' []]
     \<and> files w' ''/data/tweets/alice_tweets.csv'' = Some [[''TWEET_ID'', ''CREATED_AT'', ''TEXT'']]
     \<and> dirs w' = {''/data/tweets''}"
proof -
  have "\<exists>w'. get_multi_user_tweets 0 scripted_api posix ''/data'' True [''alice'']
           (world0 [Inl (TweepError ''Not authorized.'')]) = (Some (Inr ()), w')
     \<and> trace w' = [Request ''alice'' 200 None (Inl (TweepError ''Not authorized.'')),
                    Export ''alice'' []]
     \<and> files w' = [''/data/tweets/alice_tweets.csv'' \<mapsto> [[''TWEET_ID'', ''CREATED_AT'', ''TEXT'']]]
     \<and> dirs w' = {''/data/tweets''}"
    using export_after_initial_failure [where api = scripted_api and os = posix
      and w = "world0 [Inl (TweepError ''Not authorized.'')]" and sn = "''alice''"
      and s = "''Not authorized.''" and p' = "[]" and dp = "''/data''" and fuel = 0
      and conn = True and rest = "[]"]
    by (simp add: scripted_api_def posix_def world0_def del: get_multi_user_tweets.simps(2))
  then obtain w' where
    "get_multi_user_tweets 0 scripted_api posix ''/data'' True [''alice'']
           (world0 [Inl (TweepError ''Not authorized.'')]) = (Some (Inr ()), w')"
    "trace w' = [Request ''alice'' 200 None (Inl (TweepError ''Not authorized.'')),
                    Export ''alice'' []]"
    "files w' = [''/data/tweets/alice_tweets.csv'' \<mapsto> [[''TWEET_ID'', ''CREATED_AT'', ''TEXT'']]]"
    "dirs w' = {''/data/tweets''}"
    by blast
  then show ?thesis by (intro exI [of _ w']) simp
qed

text \<open>
  C10. Two accounts whose fetch yields nothing to export and that get no export call at
  all, where an account whose initial request fails gets a header-only file. The account
  \<open>newcomer\<close> has no items: the \<open>IndexError\<close> of line 60 leaves \<open>get_multi_user_tweets\<close>
  before line 37. The second request for \<open>alice\<close> is refused: the \<open>TweepError\<close> of lines
  64-65 does the same. In both runs the trace holds no export, no directory is created and
  no file is written.
\<close>

theorem failed_fetch_without_export:
  "get_multi_user_tweets fuel (timeline_api 200) posix ''/data'' conn [''newcomer'']
     (world0 (\<lambda>sn. [])) =
   (Some (Inl IndexError),
    \<lparr>platform = (\<lambda>sn. []), trace = [Request ''newcomer'' 200 None (Inr [])],
     sent = (if conn then [Str ''Getting tweets for newcomer ...''] else []), printed = [],
     dirs = {}, files = Map.empty\<rparr>)
   \<and> get_multi_user_tweets (Suc fuel) scripted_api posix ''/data'' False [''alice'']
       (world0 [Inr [tw 10], Inl (TweepError ''Rate limit exceeded'')]) =
     (Some (Inl (TweepError ''Rate limit exceeded'')),
      \<lparr>platform = [],
       trace = [Request ''alice'' 200 None (Inr [tw 10]),
                Request ''alice'' 200 (Some 9) (Inl (TweepError ''Rate limit exceeded''))],
       sent = [], printed = [], dirs = {}, files = Map.empty\<rparr>)"
  by (simp add: get_user_tweets_def call_user_timeline_def timeline_api_def scripted_api_def
      world0_def py_last_def starting_def tw_def)

section \<open>Starting a download\<close>

lemma strip_Nil: "strip l = [] \<longleftrightarrow> (\<forall>c \<in> set l. isspace c)"
proof
  assume a: "strip l = []"
  show "\<forall>c \<in> set l. isspace c"
  proof (cases "dropWhile isspace l")
    case Nil
    then show ?thesis by simp
  next
    case (Cons c cs)
    then have "\<not> isspace c" by (metis hd_dropWhile list.sel(1) list.distinct(1))
    moreover from a have "\<forall>x \<in> set (dropWhile isspace l). isspace x"
      by (simp add: strip_def)
    ultimately show ?thesis using Cons by simp
  qed
next
  assume "\<forall>c \<in> set l. isspace c"
  then have "dropWhile isspace l = []" by simp
  then show "strip l = []" by (simp add: strip_def del: dropWhile_eq_Nil_conv)
qed

lemma read_screen_names_Nil:
  "read_screen_names t = [] \<longleftrightarrow> (\<forall>l \<in> set (split_nl t). \<forall>c \<in> set l. isspace c)"
  by (cases t) (auto simp: read_screen_names_def filter_empty_conv strip_Nil)

lemma some_screen_name_starts_worker:
  assumes "\<not> (\<forall>l \<in> set (split_nl (screen_names_text g)). \<forall>c \<in> set l. isspace c)"
  shows "download_worker_proc (download_tweets g) \<noteq> None"
  using assms by (simp add: read_screen_names_Nil download_tweets_def Let_def)

text \<open>
  C9. When every line of the text of the screen-name box consists of white space only,
  no screen name is read and \<open>download_tweets\<close> leaves the interface as it was: no corpus
  is built, the button stays enabled and no worker process is started, so that neither
  \<open>get_user_tweets\<close> nor \<open>user_tweets_to_csv\<close> runs.
\<close>

theorem no_screen_names_no_worker:
  assumes "\<forall>l \<in> set (split_nl (screen_names_text g)). \<forall>c \<in> set l. isspace c"
  shows "read_screen_names (screen_names_text g) = [] \<and> download_tweets g = g"
  using assms by (simp add: read_screen_names_Nil download_tweets_def)

theorem no_screen_names_witness:
  "split_nl (screen_names_text (gui0 ''  \<newline>\<newline> '')) = [''  '', [], '' '']
   \<and> read_screen_names ''  \<newline>\<newline> '' = []
   \<and> download_tweets (gui0 ''  \<newline>\<newline> '') = gui0 ''  \<newline>\<newline> ''"
  using no_screen_names_no_worker [of "gui0 ''  \<newline>\<newline> ''"]
  by (simp add: gui0_def isspace_def)

section \<open>The cursor\<close>

lemma cursor_chain_nth:
  "cursor_chain rs \<Longrightarrow> Suc i < length rs \<Longrightarrow>
     page_of (rs ! i) \<noteq> [] \<and> cursor_of (rs ! Suc i) = Some (tweet_id (last (page_of (rs ! i))) - 1)"
proof (induction rs arbitrary: i rule: cursor_chain.induct)
  case (1 r1 r2 rs)
  then show ?case by (cases i) auto
qed auto

lemma call_user_timeline_trace:
  "call_user_timeline api sn cnt m w = (r, w1) \<Longrightarrow>
     trace w1 = trace w @ [Request sn cnt m r]"
  by (auto simp: call_user_timeline_def split: prod.splits)

lemma call_user_timeline_honoured:
  "honours_max_id api \<Longrightarrow> call_user_timeline api sn cnt m w = (r, w1) \<Longrightarrow>
     honoured (Request sn cnt m r)"
  by (cases m; cases r)
    (force simp: call_user_timeline_def honours_max_id_def split: prod.splits)+

text \<open>What the loop, and then the whole fetch, add to the trace.\<close>

lemma fetch_loop_trace:
  assumes "new \<noteq> [] \<longrightarrow> last user = last new \<and> oldest = tweet_id (last new) - 1"
  shows "\<exists>evs. trace (snd (fetch_loop fuel api conn sn new user oldest w)) = trace w @ evs
           \<and> cursor_chain (Request sn 200 m (Inr new) # evs)
           \<and> list_all is_request evs
           \<and> (honours_max_id api \<longrightarrow> list_all honoured evs)"
  using assms
proof (induction fuel arbitrary: new user oldest w m)
  case 0
  then show ?case by simp
next
  case (Suc fuel)
  show ?case
  proof (cases "new = []")
    case True
    then show ?thesis by simp
  next
    case False
    obtain r w1 where c: "call_user_timeline api sn 200 (Some oldest) w = (r, w1)"
      by (cases "call_user_timeline api sn 200 (Some oldest) w")
    note t1 = call_user_timeline_trace [OF c]
    have h1: "honours_max_id api \<longrightarrow> honoured (Request sn 200 (Some oldest) r)"
      using call_user_timeline_honoured [OF _ c] by blast
    have old: "oldest = tweet_id (last new) - 1" and lu: "last user = last new"
      using Suc.prems False by auto
    show ?thesis
    proof (cases r)
      case (Inl e)
      then show ?thesis using False c t1 h1 old by simp
    next
      case (Inr new')
      let ?user' = "user @ new'"
      show ?thesis
      proof (cases "?user' = []")
        case True
        then show ?thesis using False c t1 h1 old Inr by (simp add: py_last_def)
      next
        case ne: False
        let ?w2 = "notify conn (Str (str_nat (length ?user') @ '' tweets downloaded for ''
                             @ sn @ '' so far.'')) w1"
        let ?oldest' = "tweet_id (last ?user') - 1"
        have pre: "new' \<noteq> [] \<longrightarrow> last ?user' = last new' \<and> ?oldest' = tweet_id (last new') - 1"
          by simp
        from Suc.IH [OF pre, of ?w2 "Some oldest"] obtain evs where
          e: "trace (snd (fetch_loop fuel api conn sn new' ?user' ?oldest' ?w2)) = trace ?w2 @ evs"
            "cursor_chain (Request sn 200 (Some oldest) (Inr new') # evs)"
            "list_all is_request evs" "honours_max_id api \<longrightarrow> list_all honoured evs"
          by blast
        have step: "fetch_loop (Suc fuel) api conn sn new user oldest w =
                    fetch_loop fuel api conn sn new' ?user' ?oldest' ?w2"
          using False c Inr ne by (auto simp: py_last_def Let_def)
        have "trace (snd (fetch_loop (Suc fuel) api conn sn new user oldest w)) =
                trace w @ (Request sn 200 (Some oldest) (Inr new') # evs)"
          unfolding step using e(1) t1 Inr by simp
        moreover have "cursor_chain (Request sn 200 m (Inr new) # Request sn 200 (Some oldest) (Inr new') # evs)"
          using e(2) False old by simp
        moreover have "list_all is_request (Request sn 200 (Some oldest) (Inr new') # evs)"
          using e(3) by simp
        moreover have "honours_max_id api \<longrightarrow> list_all honoured (Request sn 200 (Some oldest) (Inr new') # evs)"
          using e(4) h1 Inr by simp
        ultimately show ?thesis by blast
      qed
    qed
  qed
qed


lemma get_user_tweets_trace:
  "\<exists>evs. trace (snd (get_user_tweets fuel api conn sn w)) = trace w @ evs
     \<and> cursor_chain evs \<and> list_all is_request evs
     \<and> (honours_max_id api \<longrightarrow> list_all honoured evs)"
proof -
  obtain r w1 where c: "call_user_timeline api sn 200 None w = (r, w1)"
    by (cases "call_user_timeline api sn 200 None w")
  note t1 = call_user_timeline_trace [OF c]
  show ?thesis
  proof (cases r)
    case (Inl e)
    then have "trace (snd (get_user_tweets fuel api conn sn w)) = trace w @ [Request sn 200 None r]"
      using c t1 by (cases e) (simp_all add: get_user_tweets_def)
    then show ?thesis by simp
  next
    case (Inr new)
    show ?thesis
    proof (cases "new = []")
      case True
      then have "trace (snd (get_user_tweets fuel api conn sn w)) = trace w @ [Request sn 200 None r]"
        using c t1 Inr by (simp add: get_user_tweets_def py_last_def)
      then show ?thesis by simp
    next
      case False
      have g: "get_user_tweets fuel api conn sn w =
               fetch_loop fuel api conn sn new new (tweet_id (last new) - 1) w1"
        using c Inr False by (simp add: get_user_tweets_def py_last_def)
      have pre: "new \<noteq> [] \<longrightarrow> last new = last new \<and> tweet_id (last new) - 1 = tweet_id (last new) - 1"
        by simp
      from fetch_loop_trace [OF pre, of fuel api conn sn w1 None] obtain evs where
        e: "trace (snd (fetch_loop fuel api conn sn new new (tweet_id (last new) - 1) w1)) = trace w1 @ evs"
          "cursor_chain (Request sn 200 None (Inr new) # evs)"
          "list_all is_request evs" "honours_max_id api \<longrightarrow> list_all honoured evs"
        by blast
      have "trace (snd (get_user_tweets fuel api conn sn w)) =
              trace w @ (Request sn 200 None (Inr new) # evs)"
        unfolding g using e(1) t1 Inr by simp
      moreover have "list_all is_request (Request sn 200 None (Inr new) # evs)"
        using e(3) by simp
      moreover have "honours_max_id api \<longrightarrow> list_all honoured (Request sn 200 None (Inr new) # evs)"
        using e(4) by simp
      ultimately show ?thesis using e(2) by blast
    qed
  qed
qed

lemma transp_cursor_ge: "transp (\<lambda>a b. cursor_le b a)"
  by (rule transpI) (auto simp: cursor_le_def split: option.splits)

lemma honoured_last:
  assumes "honoured ev" and "page_of ev \<noteq> []"
  shows "cursor_le (Some (tweet_id (last (page_of ev)) - 1)) (cursor_of ev)"
proof (cases ev)
  case (Request sn cnt m r)
  show ?thesis
  proof (cases m)
    case None
    then show ?thesis using Request by (simp add: cursor_le_def)
  next
    case (Some x)
    from assms(2) Request obtain page where r: "r = Inr page" and ne: "page \<noteq> []"
      by (cases r) auto
    then have "tweet_id (last page) \<le> x"
      using assms(1) Request Some by simp
    then show ?thesis using Request Some r by (simp add: cursor_le_def)
  qed
next
  case (Export sn tweets)
  then show ?thesis using assms by simp
qed

lemma chain_cursors_non_increasing:
  assumes "cursor_chain rs" and "list_all honoured rs"
  shows "cursors_non_increasing rs"
  unfolding cursors_non_increasing_def sorted_wrt_iff_nth_Suc_transp [OF transp_cursor_ge]
proof (intro allI impI)
  fix i
  assume "Suc i < length (map cursor_of rs)"
  then have i: "Suc i < length rs" by simp
  from cursor_chain_nth [OF assms(1) i]
  have p: "page_of (rs ! i) \<noteq> []"
    and c: "cursor_of (rs ! Suc i) = Some (tweet_id (last (page_of (rs ! i))) - 1)"
    by simp_all
  have "honoured (rs ! i)" using assms(2) i by (simp add: list_all_length)
  from honoured_last [OF this p] show
    "cursor_le (map cursor_of rs ! Suc i) (map cursor_of rs ! i)"
    using i c by simp
qed

lemma ids_decrease_last:
  "ids_decrease page \<Longrightarrow> t \<in> set page \<Longrightarrow> tweet_id (last page) \<le> tweet_id t"
  unfolding ids_decrease_def
  by (induction page) (auto simp: less_imp_le)

lemma honours_max_id_timeline_api: "honours_max_id (timeline_api ceiling)"
  by (auto simp: honours_max_id_def timeline_api_def dest: in_set_takeD)

text \<open>
  C4, with the condition on the platform spelled out. Let \<open>reqs\<close> be the requests that one call of \<open>get_user_tweets\<close> adds to
  the trace, whatever the platform does and however long the loop has run. For any two
  consecutive requests, the earlier one was answered with a page that is not empty and the
  later one is made with the id of that page's last item, less one; when the ids of that
  page decrease, this cursor lies strictly below every id of the page. When moreover the
  platform honours \<open>max_id\<close> (no item of a page is newer than the cursor asked for), the
  cursors never increase from one request to the next. The code takes the item from the end
  of the accumulated list (\<open>user_tweets[-1]\<close>), which is the last item of the page just
  fetched whenever that page is not empty.
\<close>

theorem cursor_rule:
  "\<exists>reqs. trace (snd (get_user_tweets fuel api conn sn w)) = trace w @ reqs
     \<and> list_all is_request reqs
     \<and> (honours_max_id api \<longrightarrow> cursors_non_increasing reqs)
     \<and> (\<forall>i. Suc i < length reqs \<longrightarrow>
           page_of (reqs ! i) \<noteq> []
           \<and> cursor_of (reqs ! Suc i) = Some (tweet_id (last (page_of (reqs ! i))) - 1)
           \<and> (ids_decrease (page_of (reqs ! i)) \<longrightarrow>
                (\<forall>t \<in> set (page_of (reqs ! i)).
                   tweet_id (last (page_of (reqs ! i))) - 1 < tweet_id t)))"
proof -
  from get_user_tweets_trace [of fuel api conn sn w] obtain reqs where
    r: "trace (snd (get_user_tweets fuel api conn sn w)) = trace w @ reqs"
      "cursor_chain reqs" "honours_max_id api \<longrightarrow> list_all honoured reqs"
      "list_all is_request reqs"
    by blast
  have "honours_max_id api \<longrightarrow> cursors_non_increasing reqs"
    using r(2,3) chain_cursors_non_increasing by blast
  moreover have "page_of (reqs ! i) \<noteq> []
           \<and> cursor_of (reqs ! Suc i) = Some (tweet_id (last (page_of (reqs ! i))) - 1)
           \<and> (ids_decrease (page_of (reqs ! i)) \<longrightarrow>
                (\<forall>t \<in> set (page_of (reqs ! i)).
                   tweet_id (last (page_of (reqs ! i))) - 1 < tweet_id t))"
    if "Suc i < length reqs" for i
    using cursor_chain_nth [OF r(2) that] ids_decrease_last [of "page_of (reqs ! i)"]
    by fastforce
  ultimately show ?thesis using r(1,4) by blast
qed

theorem cursor_rule_witness:
  "map cursor_of (trace (snd (get_user_tweets 3 (timeline_api 2) True ''alice''
          (world0 (\<lambda>sn. [tw 9, tw 7, tw 4]))))) = [None, Some 6, Some 3]
   \<and> cursors_non_increasing (trace (snd (get_user_tweets 3 (timeline_api 2) True ''alice''
          (world0 (\<lambda>sn. [tw 9, tw 7, tw 4])))))"
proof -
  have "map cursor_of (trace (snd (get_user_tweets 3 (timeline_api 2) True ''alice''
          (world0 (\<lambda>sn. [tw 9, tw 7, tw 4]))))) = [None, Some 6, Some 3]"
    by code_simp
  moreover have "cursors_non_increasing (trace (snd (get_user_tweets 3 (timeline_api 2) True
          ''alice'' (world0 (\<lambda>sn. [tw 9, tw 7, tw 4])))))"
    using cursor_rule [where api = "timeline_api 2" and fuel = 3 and conn = True
        and sn = "''alice''" and w = "world0 (\<lambda>sn. [tw 9, tw 7, tw 4])"]
      honours_max_id_timeline_api [of 2]
    by (auto simp: world0_def)
  ultimately show ?thesis by simp
qed

text \<open>
  C4 without the condition on the platform: a platform that answers the request
  made with \<open>max_id = 9\<close> by a page holding the item 50. Both pages have decreasing ids, and
  the cursor goes up from 9 to 49.
\<close>

theorem cursor_can_increase:
  "ids_decrease [tw 10] \<and> ids_decrease [tw 50]
   \<and> map cursor_of (trace (snd (get_user_tweets 2 scripted_api True ''alice''
          (world0 [Inr [tw 10], Inr [tw 50]])))) = [None, Some 9, Some 49]
   \<and> \<not> cursors_non_increasing (trace (snd (get_user_tweets 2 scripted_api True ''alice''
          (world0 [Inr [tw 10], Inr [tw 50]]))))"
  by code_simp

section \<open>The number of requests\<close>

lemma ceil_step:
  fixes j k n :: nat
  assumes "0 < k" and "j < n"
  shows "(n - min (j + k) n + k - 1) div k + 1 = (n - j + k - 1) div k"
proof (cases "j + k \<le> n")
  case True
  define q where "q = n - (j + k) + k - 1"
  have 1: "n - min (j + k) n + k - 1 = q"
    using True by (simp add: min_def q_def)
  have 2: "n - j + k - 1 = q + k"
    using True assms by (simp add: q_def)
  have "(q + k) div k = q div k + 1" using assms by (simp add: div_add_self2)
  then show ?thesis by (simp only: 1 2)
next
  case False
  then have a: "n - min (j + k) n + k - 1 = k - 1" by (simp add: min_def)
  have "k \<le> n - j + k - 1" "n - j + k - 1 < 2 * k" using False assms by auto
  then have "(n - j + k - 1) div k = 1"
    by (intro div_nat_eqI) simp_all
  then show ?thesis using a assms by simp
qed

lemma last_take_nth: "0 < j \<Longrightarrow> j \<le> length xs \<Longrightarrow> last (take j xs) = xs ! (j - 1)"
  by (subst last_conv_nth) (auto simp: min_def)

lemma filter_older_drop:
  assumes "ids_decrease ts" and "0 < j" and "j \<le> length ts"
  shows "filter (\<lambda>t. tweet_id t \<le> tweet_id (ts ! (j - 1)) - 1) ts = drop j ts"
proof -
  define a where "a = take j ts"
  define b where "b = drop j ts"
  define c where "c = tweet_id (ts ! (j - 1)) - 1"
  have ts: "ts = a @ b" by (simp add: a_def b_def)
  have s: "sorted_wrt (\<lambda>x y. tweet_id x > tweet_id y) (a @ b)"
    using assms(1) by (simp add: ids_decrease_def a_def b_def)
  have la: "tweet_id (last a) = c + 1" using assms by (simp add: last_take_nth a_def c_def)
  have ne: "a \<noteq> []" using assms by (auto simp: a_def)
  have da: "ids_decrease a" using s by (simp add: sorted_wrt_append ids_decrease_def)
  have 1: "\<not> tweet_id x \<le> c" if "x \<in> set a" for x
    using ids_decrease_last [OF da that] la by simp
  have "last a \<in> set a" using ne by simp
  then have 2: "tweet_id y \<le> c" if "y \<in> set b" for y
    using s la that unfolding sorted_wrt_append by fastforce
  have "filter (\<lambda>t. tweet_id t \<le> c) a = []" using 1 by (simp add: filter_empty_conv)
  moreover have "filter (\<lambda>t. tweet_id t \<le> c) b = b" using 2 by (simp add: filter_id_conv)
  ultimately have "filter (\<lambda>t. tweet_id t \<le> c) (a @ b) = b" by simp
  then show ?thesis by (simp add: a_def b_def c_def)
qed

lemma requests_of_snoc:
  "requests_of (evs @ [Request sn cnt m r]) = requests_of evs @ [Request sn cnt m r]"
  by (simp add: requests_of_def)

lemma fetch_loop_timeline:
  assumes "ids_decrease ts" and "platform w sn = ts" and "0 < k" and "k = min 200 c"
    and "new \<noteq> []" and "0 < j" and "j \<le> length ts" and "user = take j ts"
    and "oldest = tweet_id (ts ! (j - 1)) - 1"
    and "(length ts - j + k - 1) div k + 1 \<le> fuel"
  shows "\<exists>w'. fetch_loop fuel (timeline_api c) conn sn new user oldest w = (Some (Inr ts), w')
           \<and> length (requests_of (trace w')) =
               length (requests_of (trace w)) + (length ts - j + k - 1) div k + 1"
  using assms
proof (induction fuel arbitrary: new user oldest w j)
  case 0
  then show ?case by simp
next
  case (Suc fuel)
  define page where "page = take k (drop j ts)"
  define w1 where "w1 = w\<lparr>platform := platform w,
      trace := trace w @ [Request sn 200 (Some oldest) (Inr page)]\<rparr>"
  define user' where "user' = user @ page"
  define w2 where "w2 = notify conn (Str (str_nat (length user') @ '' tweets downloaded for ''
                             @ sn @ '' so far.'')) w1"
  have call: "call_user_timeline (timeline_api c) sn 200 (Some oldest) w = (Inr page, w1)"
  proof -
    have f: "filter (\<lambda>t. tweet_id t \<le> oldest) ts = drop j ts"
      unfolding Suc.prems(9) using Suc.prems(1,6,7) by (rule filter_older_drop)
    show ?thesis
      using Suc.prems(2,4)
      by (simp add: call_user_timeline_def timeline_api_def f page_def w1_def)
  qed
  have u: "user' = take (j + k) ts"
    using Suc.prems(8) by (simp add: user'_def page_def take_add)
  have une: "user' \<noteq> []"
    using Suc.prems(6,7,8) by (auto simp: user'_def)
  have step: "fetch_loop (Suc fuel) (timeline_api c) conn sn new user oldest w =
              fetch_loop fuel (timeline_api c) conn sn page user' (tweet_id (last user') - 1) w2"
    using Suc.prems(5) call une
    by (simp add: py_last_def Let_def user'_def [symmetric] w2_def)
  have tr2: "requests_of (trace w2) = requests_of (trace w) @ [Request sn 200 (Some oldest) (Inr page)]"
    by (simp add: w2_def w1_def requests_of_snoc)
  have pl2: "platform w2 sn = ts"
    using Suc.prems(2) by (simp add: w2_def w1_def)
  show ?case
  proof (cases "j = length ts")
    case True
    then have "page = []" "user' = ts" by (simp_all add: page_def u)
    then have "fetch_loop (Suc fuel) (timeline_api c) conn sn new user oldest w = (Some (Inr ts), w2)"
      unfolding step by (simp add: fetch_loop_done)
    moreover have "length (requests_of (trace w2)) =
        length (requests_of (trace w)) + (length ts - j + k - 1) div k + 1"
      using True Suc.prems(3) by (simp add: tr2)
    ultimately show ?thesis by blast
  next
    case False
    then have lt: "j < length ts" using Suc.prems(7) by simp
    define j' where "j' = min (j + k) (length ts)"
    have j': "0 < j'" "j' \<le> length ts" using Suc.prems(6) lt by (auto simp: j'_def)
    have pne: "page \<noteq> []" using lt Suc.prems(3) by (simp add: page_def)
    have u': "user' = take j' ts" by (simp add: u j'_def min_def)
    have old': "tweet_id (last user') - 1 = tweet_id (ts ! (j' - 1)) - 1"
      using j' by (simp add: u' last_take_nth)
    have cs: "(length ts - j' + k - 1) div k + 1 = (length ts - j + k - 1) div k"
      unfolding j'_def using Suc.prems(3) lt by (rule ceil_step)
    have fuel: "(length ts - j' + k - 1) div k + 1 \<le> fuel"
      using Suc.prems(10) cs by simp
    from Suc.IH [OF Suc.prems(1) pl2 Suc.prems(3,4) pne j' u' old' fuel]
    obtain w' where
      r: "fetch_loop fuel (timeline_api c) conn sn page user' (tweet_id (last user') - 1) w2 =
            (Some (Inr ts), w')"
        "length (requests_of (trace w')) =
           length (requests_of (trace w2)) + (length ts - j' + k - 1) div k + 1"
      by blast
    have "length (requests_of (trace w')) =
        length (requests_of (trace w)) + (length ts - j + k - 1) div k + 1"
      using r(2) cs by (simp add: tr2)
    then show ?thesis using r(1) step by simp
  qed
qed

lemma get_user_tweets_timeline:
  assumes "ids_decrease ts" and "platform w sn = ts" and "ts \<noteq> []" and "0 < k"
    and "k = min 200 c" and "(length ts + k - 1) div k \<le> fuel"
  shows "\<exists>w'. get_user_tweets fuel (timeline_api c) conn sn w = (Some (Inr ts), w')
           \<and> length (requests_of (trace w')) =
               length (requests_of (trace w)) + (length ts + k - 1) div k + 1"
proof -
  define j where "j = min k (length ts)"
  define page where "page = take j ts"
  define w1 where "w1 = w\<lparr>platform := platform w,
      trace := trace w @ [Request sn 200 None (Inr page)]\<rparr>"
  have j: "0 < j" "j \<le> length ts" using assms(3,4) by (auto simp: j_def)
  have call: "call_user_timeline (timeline_api c) sn 200 None w = (Inr page, w1)"
    using assms(2,5)
    by (simp add: call_user_timeline_def timeline_api_def page_def w1_def j_def min_def)
  have pne: "page \<noteq> []" using j assms(3) by (simp add: page_def)
  have g: "get_user_tweets fuel (timeline_api c) conn sn w =
           fetch_loop fuel (timeline_api c) conn sn page page (tweet_id (last page) - 1) w1"
    using call pne by (simp add: get_user_tweets_def py_last_def)
  have old: "tweet_id (last page) - 1 = tweet_id (ts ! (j - 1)) - 1"
    using j by (simp add: page_def last_take_nth)
  have pl: "platform w1 sn = ts" using assms(2) by (simp add: w1_def)
  have cs: "(length ts - j + k - 1) div k + 1 = (length ts + k - 1) div k"
    using ceil_step [of k 0 "length ts"] assms(3,4) by (simp add: j_def)
  have fuel: "(length ts - j + k - 1) div k + 1 \<le> fuel" using assms(6) cs by simp
  from fetch_loop_timeline [OF assms(1) pl assms(4,5) pne j page_def old fuel, of conn]
  obtain w' where
    r: "fetch_loop fuel (timeline_api c) conn sn page page (tweet_id (last page) - 1) w1 =
          (Some (Inr ts), w')"
      "length (requests_of (trace w')) =
         length (requests_of (trace w1)) + (length ts - j + k - 1) div k + 1"
    by blast
  have "length (requests_of (trace w')) =
      length (requests_of (trace w)) + (length ts + k - 1) div k + 1"
    using r(2) cs by (simp add: w1_def requests_of_snoc)
  then show ?thesis using r(1) g by simp
qed

lemma ids_decrease_countdown: "ids_decrease (map (\<lambda>i. tw (int i)) (rev [0..<n]))"
  by (simp add: ids_decrease_def sorted_wrt_map sorted_wrt_rev tw_def rev_map [symmetric]
      del: rev_map upt_Suc)

text \<open>
  C3, with the request that ends the loop counted. An account with at least one item, on a platform that serves its items
  newest first in pages of 200 (ids decreasing, \<open>max_id\<close> honoured): given enough
  iterations, \<open>get_user_tweets\<close> returns all the items in order and issues exactly
  \<open>ceil(total_items / 200) + 1\<close> requests, the last of which is answered with the empty page
  that ends the loop.
\<close>

theorem full_fetch_requests:
  assumes "ids_decrease (platform w sn)" and "platform w sn \<noteq> []" and "200 \<le> c"
    and "(length (platform w sn) + 199) div 200 \<le> fuel"
  shows "\<exists>w'. get_user_tweets fuel (timeline_api c) conn sn w = (Some (Inr (platform w sn)), w')
           \<and> length (requests_of (trace w')) =
               length (requests_of (trace w)) + (length (platform w sn) + 199) div 200 + 1"
proof -
  have a: "(0::nat) < 200" by simp
  have b: "(200::nat) = min 200 c" using assms(3) by simp
  have f: "(length (platform w sn) + 200 - 1) div 200 \<le> fuel" using assms(4) by simp
  from get_user_tweets_timeline [OF assms(1) refl assms(2) a b f, of conn]
  obtain w' where
    r: "get_user_tweets fuel (timeline_api c) conn sn w = (Some (Inr (platform w sn)), w')"
      "length (requests_of (trace w')) =
         length (requests_of (trace w)) + (length (platform w sn) + 200 - 1) div 200 + 1"
    by blast
  have "length (platform w sn) + 200 - 1 = length (platform w sn) + 199" by simp
  with r(2) have "length (requests_of (trace w')) =
         length (requests_of (trace w)) + (length (platform w sn) + 199) div 200 + 1"
    by (simp only:)
  with r(1) show ?thesis by blast
qed

theorem full_fetch_requests_witness:
  "\<exists>w'. get_user_tweets 2 (timeline_api 200) True ''alice''
           (world0 (\<lambda>sn. map (\<lambda>i. tw (int i)) (rev [0..<201]))) =
         (Some (Inr (map (\<lambda>i. tw (int i)) (rev [0..<201]))), w')
     \<and> length (requests_of (trace w')) = 3"
  using full_fetch_requests [where w = "world0 (\<lambda>sn. map (\<lambda>i. tw (int i)) (rev [0..<201]))"
      and sn = "''alice''" and c = 200 and fuel = 2 and conn = True]
    ids_decrease_countdown [of 201]
  by (simp add: world0_def requests_of_def numeral_3_eq_3 del: upt_Suc)

text \<open>
  C3 with the count \<open>ceil(total_items / 200)\<close>: an account with one item. The item arrives with the first request, the
  loop asks once more and receives the empty page: two requests, where
  \<open>ceil(1 / 200) = 1\<close>.
\<close>

theorem one_item_two_requests:
  "fst (get_user_tweets 1 (timeline_api 200) True ''alice'' (world0 (\<lambda>sn. [tw 1]))) =
     Some (Inr [tw 1])
   \<and> length (requests_of (trace (snd (get_user_tweets 1 (timeline_api 200) True ''alice''
        (world0 (\<lambda>sn. [tw 1])))))) = 2
   \<and> length (requests_of (trace (snd (get_user_tweets 1 (timeline_api 200) True ''alice''
        (world0 (\<lambda>sn. [tw 1])))))) \<noteq> (length [tw 1] + 199) div 200"
  by code_simp

end
